theory Spec2Isabelle
  imports Main "HOL-Library.Sublist"
begin

section \<open>Python strings\<close>

text \<open>
  A \<open>string\<close> is a list of bytes. Python \<open>bytes\<close> values are modelled as such, and a
  Python \<open>str\<close> value is represented by its UTF-8 encoding: concatenation, equality,
  \<open>in\<close>, \<open>rstrip\<close> and \<open>replace\<close> of ASCII characters are the same on the encoding as on
  the code points. \<open>'...{}...'.format(a)\<close> with a string argument is concatenation; an
  \<open>int\<close> argument is printed in decimal (\<open>str_int\<close>).
\<close>

definition NL :: char where
  "NL = CHR 0x0A"

definition CR :: char where
  "CR = CHR 0x0D"

definition DQ :: char where
  "DQ = CHR 0x22"

definition digit :: "nat \<Rightarrow> char" where
  "digit n = ''0123456789'' ! n"

fun str_nat :: "nat \<Rightarrow> string" where
  "str_nat n = (if n < 10 then [digit n] else str_nat (n div 10) @ [digit (n mod 10)])"

declare str_nat.simps [simp del]

definition str_int :: "int \<Rightarrow> string" where
  "str_int i = (if i < 0 then CHR ''-'' # str_nat (nat (- i)) else str_nat (nat i))"

text \<open>
  \<open>b.decode()\<close>: strict UTF-8. The well-formed sequences are one byte below \<open>0x80\<close>, or a
  lead byte \<open>0xC2..0xF4\<close> with one to three continuation bytes \<open>0x80..0xBF\<close>, where the
  first continuation byte is restricted after \<open>0xE0\<close>, \<open>0xED\<close>, \<open>0xF0\<close> and \<open>0xF4\<close> (no
  overlong forms, no surrogates, nothing above \<open>U+10FFFF\<close>). The result is \<open>None\<close> where
  Python raises \<open>UnicodeDecodeError\<close>.
\<close>

definition cont :: "nat \<Rightarrow> bool" where
  "cont b = (0x80 \<le> b \<and> b \<le> 0xBF)"

fun utf8_ok :: "nat list \<Rightarrow> bool" where
  "utf8_ok [] = True"
| "utf8_ok (b # bs) =
     (if b < 0x80 then utf8_ok bs
      else if 0xC2 \<le> b \<and> b \<le> 0xDF then
        (case bs of
           b1 # r \<Rightarrow> cont b1 \<and> utf8_ok r
         | _ \<Rightarrow> False)
      else if 0xE0 \<le> b \<and> b \<le> 0xEF then
        (case bs of
           b1 # b2 # r \<Rightarrow>
             (if b = 0xE0 then 0xA0 \<le> b1 \<and> b1 \<le> 0xBF
              else if b = 0xED then 0x80 \<le> b1 \<and> b1 \<le> 0x9F
              else cont b1)
             \<and> cont b2 \<and> utf8_ok r
         | _ \<Rightarrow> False)
      else if 0xF0 \<le> b \<and> b \<le> 0xF4 then
        (case bs of
           b1 # b2 # b3 # r \<Rightarrow>
             (if b = 0xF0 then 0x90 \<le> b1 \<and> b1 \<le> 0xBF
              else if b = 0xF4 then 0x80 \<le> b1 \<and> b1 \<le> 0x8F
              else cont b1)
             \<and> cont b2 \<and> cont b3 \<and> utf8_ok r
         | _ \<Rightarrow> False)
      else False)"

definition decode_utf8 :: "string \<Rightarrow> string option" where
  "decode_utf8 bs = (if utf8_ok (map of_char bs) then Some bs else None)"

text \<open>
  Reading a file in text mode decodes its bytes in the encoding of the locale and turns
  every line ending into a newline. The decoding is a parameter of \<open>open_read\<close> below;
  \<open>text_utf8\<close> is the reading under a UTF-8 locale.
\<close>

type_synonym decoder = "string \<Rightarrow> string option"

fun universal_newlines :: "string \<Rightarrow> string" where
  "universal_newlines [] = []"
| "universal_newlines [c] = [if c = CR then NL else c]"
| "universal_newlines (c # d # cs) =
     (if c = CR \<and> d = NL then NL # universal_newlines cs
      else if c = CR then NL # universal_newlines (d # cs)
      else c # universal_newlines (d # cs))"

definition text_utf8 :: decoder where
  "text_utf8 bs = map_option universal_newlines (decode_utf8 bs)"

text \<open>\<open>s.rstrip('\n')\<close>: every trailing newline is removed.\<close>

definition rstrip_nl :: "string \<Rightarrow> string" where
  "rstrip_nl s = rev (dropWhile (\<lambda>c. c = NL) (rev s))"

text \<open>\<open>sub in s\<close> on strings: \<open>sub\<close> occurs in \<open>s\<close> as a contiguous block.\<close>

fun str_in :: "string \<Rightarrow> string \<Rightarrow> bool" where
  "str_in sub [] = (sub = [])"
| "str_in sub (c # cs) = (prefix sub (c # cs) \<or> str_in sub cs)"

text \<open>\<open>s.replace('/', '-')\<close>.\<close>

definition replace_slash :: "string \<Rightarrow> string" where
  "replace_slash s = map (\<lambda>c. if c = CHR ''/'' then CHR ''-'' else c) s"

text \<open>\<open>os.path.join(a, b)\<close> on POSIX.\<close>

definition os_path_join :: "string \<Rightarrow> string \<Rightarrow> string" where
  "os_path_join a b =
     (if prefix ''/'' b then b
      else if a = [] \<or> last a = CHR ''/'' then a @ b
      else a @ ''/'' @ b)"

section \<open>User config\<close>

record fork_entry =
  branches :: "string list"
  url :: string

definition FORKS :: "string \<rightharpoonup> fork_entry" where
  "FORKS =
     [''dtc'' \<mapsto> \<lparr>branches = [''dtc/develop''],
                 url = ''https://github.com/NCAR/ufs-weather-model''\<rparr>,
      ''emc'' \<mapsto> \<lparr>branches = [''develop''],
                 url = ''https://github.com/ufs-community/ufs-weather-model''\<rparr>,
      ''dom'' \<mapsto> \<lparr>branches = [''nems_machine_env_var''],
                 url = ''https://github.com/climbfuji/ufs-weather-model''\<rparr>]"

record system_entry =
  compilers :: "string list"
  default_compiler :: string
  default_project :: string
  default_rtconfig :: "string \<rightharpoonup> string"

definition SYSTEMS :: "string \<rightharpoonup> system_entry" where
  "SYSTEMS =
     [''cheyenne'' \<mapsto> \<lparr>compilers = [''intel'', ''gnu''],
                      default_compiler = ''intel'',
                      default_project = ''P48503002'',
                      default_rtconfig = [''intel'' \<mapsto> ''rt.conf'', ''gnu'' \<mapsto> ''rt_gnu.conf'']\<rparr>,
      ''hera'' \<mapsto> \<lparr>compilers = [''intel''],
                  default_compiler = ''intel'',
                  default_project = ''gmtb'',
                  default_rtconfig = [''intel'' \<mapsto> ''rt.conf'']\<rparr>]"

definition CHECKOUT_DIR :: string where
  "CHECKOUT_DIR = ''ufs-weather-model''"

definition TEST_DIR :: string where
  "TEST_DIR = ''tests''"

text \<open>\<open>BASEDIR\<close> is the working directory at start-up; it is a parameter of what uses it.\<close>

definition RT_LOG :: "string \<Rightarrow> string" where
  "RT_LOG BASEDIR = os_path_join BASEDIR ''rt_%Y%m%dT%H%M%S.log''"

definition RT_SUCCESSFUL :: string where
  "RT_SUCCESSFUL = ''REGRESSION TEST WAS SUCCESSFUL''"

definition DEFAULT_EMAIL_RECIPIENT :: string where
  "DEFAULT_EMAIL_RECIPIENT = ''heinzell@ucar.edu''"

section \<open>Command line arguments\<close>

text \<open>
  The namespace that \<open>parser.parse_args()\<close> returns: three required strings, four
  optional ones (\<open>None\<close> by default) and the \<open>store_true\<close> flag.
\<close>

record args =
  arg_fork :: string
  arg_branch :: string
  arg_system :: string
  arg_compiler :: "string option"
  arg_project :: "string option"
  arg_rtconfig :: "string option"
  arg_keep :: bool
  arg_email :: "string option"

text \<open>\<open>if args.x:\<close> holds for a string that is neither \<open>None\<close> nor empty.\<close>

fun truthy :: "string option \<Rightarrow> bool" where
  "truthy None = False"
| "truthy (Some s) = (s \<noteq> [])"

section \<open>Errors, the operating system and the state of a run\<close>

datatype error =
  Exception string
| KeyError string
| OSError string
| UnicodeDecodeError string

text \<open>
  The part of the machine the script touches: the directories that exist, the files
  with the bytes they hold, and the working directory of the process.
\<close>

record world =
  dirs :: "string set"
  files :: "string \<rightharpoonup> string"
  cwd :: string

text \<open>
  What the run did so far, in order: the commands handed to the shell with their exit
  status, and the directory trees it asked to remove.
\<close>

datatype event =
  Exec string int
| Rmtree string

record state =
  os :: world
  trace :: "event list"

text \<open>
  The platform shell is a parameter: for a command and the world it starts in, the exit
  status, the bytes captured from standard output and from standard error, and the world
  the command leaves behind. Nothing is assumed about it.
\<close>

type_synonym shell = "string \<Rightarrow> world \<Rightarrow> (int \<times> string \<times> string) \<times> world"

text \<open>\<open>now\<close> is represented by its \<open>strftime\<close> method.\<close>

type_synonym datetime = "string \<Rightarrow> string"

text \<open>Sequencing of two steps; an exception of the first ends the sequence.\<close>

definition then_do ::
  "(state \<Rightarrow> (error + 'a) \<times> state) \<Rightarrow> ('a \<Rightarrow> state \<Rightarrow> (error + 'b) \<times> state) \<Rightarrow>
   state \<Rightarrow> (error + 'b) \<times> state" where
  "then_do m f st = (case m st of (Inl e, st') \<Rightarrow> (Inl e, st') | (Inr x, st') \<Rightarrow> f x st')"

definition os_chdir :: "string \<Rightarrow> state \<Rightarrow> (error + unit) \<times> state" where
  "os_chdir path st =
     (let target = os_path_join (cwd (os st)) path in
      if target \<in> dirs (os st)
      then (Inr (), st\<lparr>os := (os st)\<lparr>cwd := target\<rparr>\<rparr>)
      else (Inl (OSError path), st))"

text \<open>
  \<open>open(path).read()\<close>: the file is opened in text mode, so its bytes go through the
  decoding \<open>dec\<close> of the platform, which raises on bytes it does not accept.
\<close>

definition open_read :: "decoder \<Rightarrow> string \<Rightarrow> state \<Rightarrow> (error + string) \<times> state" where
  "open_read dec path st =
     (case files (os st) (os_path_join (cwd (os st)) path) of
        None \<Rightarrow> (Inl (OSError path), st)
      | Some bytes \<Rightarrow>
          (case dec bytes of
             None \<Rightarrow> (Inl (UnicodeDecodeError bytes), st)
           | Some content \<Rightarrow> (Inr content, st)))"

text \<open>
  \<open>tempfile.mkdtemp(prefix=...)\<close>: \<open>tmproot\<close> is the directory for temporary files and
  \<open>rnd\<close> the random part of the name that is chosen.
\<close>

definition tempfile_mkdtemp :: "string \<Rightarrow> string \<Rightarrow> string \<Rightarrow> state \<Rightarrow> (error + string) \<times> state" where
  "tempfile_mkdtemp tmproot rnd pre st =
     (let d = os_path_join tmproot (pre @ rnd) in
      if tmproot \<notin> dirs (os st) \<or> d \<in> dirs (os st)
      then (Inl (OSError d), st)
      else (Inr d, st\<lparr>os := (os st)\<lparr>dirs := insert d (dirs (os st))\<rparr>\<rparr>))"

definition under :: "string \<Rightarrow> string \<Rightarrow> bool" where
  "under d p = (p = d \<or> prefix (d @ ''/'') p)"

definition shutil_rmtree :: "string \<Rightarrow> state \<Rightarrow> (error + unit) \<times> state" where
  "shutil_rmtree path st =
     (let d = os_path_join (cwd (os st)) path;
          st1 = st\<lparr>trace := trace st @ [Rmtree path]\<rparr> in
      if d \<notin> dirs (os st)
      then (Inl (OSError path), st1)
      else (Inr (), st1\<lparr>os := (os st)\<lparr>dirs := {p \<in> dirs (os st). \<not> under d p},
                                       files := (\<lambda>p. if under d p then None else files (os st) p)\<rparr>\<rparr>))"

section \<open>Functions and subroutines\<close>

definition exec_message :: "string \<Rightarrow> int \<Rightarrow> string \<Rightarrow> string \<Rightarrow> string" where
  "exec_message cmd status stdout stderr =
     ''Execution of command '' @ cmd @ '' failed, exit code '' @ str_int status @ [NL]
     @ ''    stdout: '' @ [DQ] @ stdout @ [DQ] @ [NL]
     @ ''    stderr: '' @ [DQ] @ stderr @ [DQ]"

text \<open>
  The command has run when its output is decoded: standard output first, then standard
  error, both before the exit status is looked at.
\<close>

definition execute :: "shell \<Rightarrow> string \<Rightarrow> state \<Rightarrow> (error + (int \<times> string \<times> string)) \<times> state" where
  "execute sh cmd st =
     (case sh cmd (os st) of
        ((returncode, out, err), w') \<Rightarrow>
          (let st' = st\<lparr>os := w', trace := trace st @ [Exec cmd returncode]\<rparr> in
           case decode_utf8 out of
             None \<Rightarrow> (Inl (UnicodeDecodeError out), st')
           | Some out_text \<Rightarrow>
          (case decode_utf8 err of
             None \<Rightarrow> (Inl (UnicodeDecodeError err), st')
           | Some err_text \<Rightarrow>
          (let stdout = rstrip_nl out_text;
               stderr = rstrip_nl err_text;
               status = returncode in
           if \<not> status = 0
           then (Inl (Exception (exec_message cmd status stdout stderr)), st')
           else (Inr (status, stdout, stderr), st')))))"

text \<open>
  The pattern \<open>if args.x: x = args.x else: x = default\<close> of the resolver, for a default
  that is always there.
\<close>

definition chosen :: "string option \<Rightarrow> string \<Rightarrow> string" where
  "chosen given dflt = (if truthy given then the given else dflt)"

definition parse_arguments ::
  "args \<Rightarrow> error + (string \<times> string \<times> string \<times> string \<times> string \<times> string \<times> bool \<times> string)" where
  "parse_arguments args =
     (let fork = arg_fork args in
      case FORKS fork of
        None \<Rightarrow> Inl (Exception (''Invalid fork '' @ fork))
      | Some f \<Rightarrow>
     (let branch = arg_branch args in
      if branch \<notin> set (branches f)
      then Inl (Exception (''Invalid branch '' @ branch @ '' of fork''))
      else
     (let system = arg_system args in
      case SYSTEMS system of
        None \<Rightarrow> Inl (Exception (''Invalid system '' @ system))
      | Some s \<Rightarrow>
     (let compiler = chosen (arg_compiler args) (default_compiler s) in
      if compiler \<notin> set (compilers s)
      then Inl (Exception (''Invalid compiler '' @ compiler @ '' for system '' @ system))
      else
     (let project = chosen (arg_project args) (default_project s) in
      case (if truthy (arg_rtconfig args) then arg_rtconfig args
            else default_rtconfig s compiler) of
        None \<Rightarrow> Inl (KeyError compiler)
      | Some rtconfig \<Rightarrow>
     (let keep = arg_keep args;
          email = chosen (arg_email args) DEFAULT_EMAIL_RECIPIENT in
      Inr (fork, branch, system, compiler, project, rtconfig, keep, email)))))))"

definition get_workdir ::
  "string \<Rightarrow> string \<Rightarrow> datetime \<Rightarrow> string \<Rightarrow> string \<Rightarrow> string \<Rightarrow> state \<Rightarrow> (error + string) \<times> state" where
  "get_workdir tmproot rnd now fork branch compiler =
     tempfile_mkdtemp tmproot rnd
       (''regtest_ufs_weather_model_'' @ fork @ ''_'' @ replace_slash branch @ ''_'' @ compiler
        @ ''_'' @ now ''%Y%m%dT%H%M%S'' @ ''_'')"

definition clone_cmd :: "string \<Rightarrow> string \<Rightarrow> string" where
  "clone_cmd branch u = ''git clone -v -b '' @ branch @ '' '' @ u @ '' '' @ CHECKOUT_DIR"

definition checkout_code ::
  "shell \<Rightarrow> string \<Rightarrow> string \<Rightarrow> string \<Rightarrow> string \<Rightarrow> state \<Rightarrow> (error + unit) \<times> state" where
  "checkout_code sh BASEDIR fork branch tmpdir =
     (case FORKS fork of
        None \<Rightarrow> (\<lambda>st. (Inl (KeyError fork), st))
      | Some f \<Rightarrow>
          then_do (os_chdir tmpdir) (\<lambda>_.
          then_do (execute sh (clone_cmd branch (url f))) (\<lambda>_.
          then_do (os_chdir CHECKOUT_DIR) (\<lambda>_.
          then_do (execute sh ''git submodule sync'') (\<lambda>_.
          then_do (execute sh ''git submodule update --init --recursive'') (\<lambda>_.
          os_chdir BASEDIR))))))"

definition rt_cmd :: "string \<Rightarrow> string \<Rightarrow> string \<Rightarrow> string \<Rightarrow> string \<Rightarrow> string \<Rightarrow> string" where
  "rt_cmd system compiler project rtconfig keep_flag rtlog =
     ''NEMS_MACHINE='' @ system @ '' NEMS_COMPILER='' @ compiler @ '' ACCNR='' @ project
     @ '' ./rt.sh -l '' @ rtconfig @ '' '' @ keep_flag @ '' > '' @ rtlog @ '' 2>&1''"

definition run_tests ::
  "shell \<Rightarrow> string \<Rightarrow> datetime \<Rightarrow> string \<Rightarrow> string \<Rightarrow> string \<Rightarrow> string \<Rightarrow> bool \<Rightarrow> string \<Rightarrow>
   state \<Rightarrow> (error + string) \<times> state" where
  "run_tests sh BASEDIR now system compiler project rtconfig keep tmpdir =
     then_do (os_chdir (os_path_join (os_path_join tmpdir CHECKOUT_DIR) TEST_DIR)) (\<lambda>_.
     (let keep_flag = (if keep then ''-k'' else '''');
          rtlog = now (RT_LOG BASEDIR) in
      then_do (execute sh (rt_cmd system compiler project rtconfig keep_flag rtlog)) (\<lambda>_.
      then_do (os_chdir BASEDIR) (\<lambda>_ st. (Inr rtlog, st)))))"

definition mail_subject :: "string \<Rightarrow> string \<Rightarrow> bool \<Rightarrow> bool \<Rightarrow> string" where
  "mail_subject system compiler success keep =
     (if success \<and> keep then system @ ''/'' @ compiler @ '': regression tests passed''
      else if success \<and> \<not> keep then system @ ''/'' @ compiler @ '': regression tests passed''
      else system @ ''/'' @ compiler @ '': regression tests did NOT PASS'')"

definition mail_message :: "string \<Rightarrow> string \<Rightarrow> bool \<Rightarrow> bool \<Rightarrow> string" where
  "mail_message tmpdir rtlog success keep =
     (if success \<and> keep
      then ''Regression tests passed, see regression test log '' @ rtlog
           @ '' and run directory '' @ tmpdir @ ''.''
      else if success \<and> \<not> keep
      then ''Regression tests passed, see regression test log '' @ rtlog @ ''.''
      else ''Regression tests did NOT PASS, check latest regression test log '' @ rtlog
           @ '' and run directory '' @ tmpdir)"

definition mail_cmd :: "string \<Rightarrow> string \<Rightarrow> string \<Rightarrow> string \<Rightarrow> string" where
  "mail_cmd message rtlog subject email =
     ''echo '' @ [DQ] @ message @ [DQ] @ '' | mail -a '' @ [DQ] @ rtlog @ [DQ]
     @ '' -s '' @ [DQ] @ subject @ [DQ] @ '' '' @ email"

definition check_logs ::
  "decoder \<Rightarrow> shell \<Rightarrow> string \<Rightarrow> string \<Rightarrow> string \<Rightarrow> string \<Rightarrow> bool \<Rightarrow> string \<Rightarrow>
   state \<Rightarrow> (error + bool) \<times> state" where
  "check_logs dec sh system compiler tmpdir rtlog keep email =
     then_do (open_read dec rtlog) (\<lambda>content.
     (let success = (if str_in RT_SUCCESSFUL content then True else False);
          subject = mail_subject system compiler success keep;
          message = mail_message tmpdir rtlog success keep;
          cmd = mail_cmd message rtlog subject email in
      then_do (execute sh cmd) (\<lambda>_ st. (Inr success, st))))"

definition cleanup :: "bool \<Rightarrow> bool \<Rightarrow> string \<Rightarrow> state \<Rightarrow> (error + unit) \<times> state" where
  "cleanup success keep tmpdir st =
     (if success \<and> \<not> keep then shutil_rmtree tmpdir st else (Inr (), st))"

definition main ::
  "decoder \<Rightarrow> shell \<Rightarrow> string \<Rightarrow> string \<Rightarrow> datetime \<Rightarrow> args \<Rightarrow> state \<Rightarrow>
   (error + unit) \<times> state" where
  "main dec sh tmproot rnd now args st =
     (let BASEDIR = cwd (os st) in
      case parse_arguments args of
        Inl e \<Rightarrow> (Inl e, st)
      | Inr (fork, branch, system, compiler, project, rtconfig, keep, email) \<Rightarrow>
          then_do (get_workdir tmproot rnd now fork branch compiler) (\<lambda>tmpdir.
          then_do (checkout_code sh BASEDIR fork branch tmpdir) (\<lambda>_.
          then_do (run_tests sh BASEDIR now system compiler project rtconfig keep tmpdir) (\<lambda>rtlog.
          then_do (check_logs dec sh system compiler tmpdir rtlog keep email) (\<lambda>success.
          cleanup success keep tmpdir)))) st)"

section \<open>Properties of runs\<close>

text \<open>
  An event is fine if it is a command that exited with status 0. A run is \<open>all_ok\<close> from
  a trace \<open>t0\<close> on if it only added such events, and \<open>stopped\<close> if it added such events
  and then at most one command with another status. \<open>triple P m Q E\<close> says that step \<open>m\<close>,
  started in a state with \<open>P\<close>, ends in a state with \<open>Q\<close> when it returns and in a state
  with \<open>E\<close> when it raises.
\<close>

fun is_ok :: "event \<Rightarrow> bool" where
  "is_ok (Exec c rc) = (rc = 0)"
| "is_ok (Rmtree d) = False"

definition all_ok :: "event list \<Rightarrow> state \<Rightarrow> bool" where
  "all_ok t0 st = (\<exists>oks. trace st = t0 @ oks \<and> list_all is_ok oks)"

definition stopped :: "event list \<Rightarrow> state \<Rightarrow> bool" where
  "stopped t0 st =
     (\<exists>oks tl. trace st = t0 @ oks @ tl \<and> list_all is_ok oks
        \<and> (tl = [] \<or> (\<exists>c rc. rc \<noteq> 0 \<and> tl = [Exec c rc])))"

definition triple ::
  "(state \<Rightarrow> bool) \<Rightarrow> (state \<Rightarrow> (error + 'a) \<times> state) \<Rightarrow> (state \<Rightarrow> bool) \<Rightarrow> (state \<Rightarrow> bool) \<Rightarrow> bool" where
  "triple P m Q E =
     (\<forall>st. P st \<longrightarrow> (case m st of (Inl e, st') \<Rightarrow> E st' | (Inr x, st') \<Rightarrow> Q st'))"

section \<open>Example runs\<close>

text \<open>
  Concrete machines on which the theorems below are exercised: a start state with the
  temporary root and the invocation directory, a clock, and three shells.
\<close>

definition ex_state :: state where
  "ex_state = \<lparr>os = \<lparr>dirs = {''/tmp'', ''/home/u''}, files = Map.empty, cwd = ''/home/u''\<rparr>,
               trace = []\<rparr>"

definition ex_now :: datetime where
  "ex_now fmt = (if fmt = ''%Y%m%dT%H%M%S'' then ''20191122T101500''
                 else ''/home/u/rt_20191122T101500.log'')"

definition ex_tmpdir :: string where
  "ex_tmpdir = ''/tmp/regtest_ufs_weather_model_emc_develop_intel_20191122T101500_a1b2c3d4''"

definition ex_rtlog :: string where
  "ex_rtlog = ''/home/u/rt_20191122T101500.log''"

definition ex_args :: args where
  "ex_args = \<lparr>arg_fork = ''emc'', arg_branch = ''develop'', arg_system = ''hera'',
              arg_compiler = None, arg_project = None, arg_rtconfig = None,
              arg_keep = False, arg_email = None\<rparr>"

text \<open>
  Every command exits with 0; \<open>git clone\<close> creates the checkout with its test directory
  and the harness writes a passing log.
\<close>

definition sh_ok :: shell where
  "sh_ok cmd w =
     ((0, [], []),
      if prefix ''git clone'' cmd
      then w\<lparr>dirs := {ex_tmpdir @ ''/ufs-weather-model'',
                      ex_tmpdir @ ''/ufs-weather-model/tests''} \<union> dirs w\<rparr>
      else if prefix ''NEMS_MACHINE'' cmd
      then w\<lparr>files := (files w)(ex_rtlog \<mapsto> ''rt.sh finished'' @ [NL] @ RT_SUCCESSFUL @ [NL])\<rparr>
      else w)"

text \<open>A state in which the checkout and a passing log exist.\<close>

definition ex_checked :: state where
  "ex_checked =
     ex_state\<lparr>os := snd (sh_ok ''NEMS_MACHINE'' (snd (sh_ok ''git clone'' (os ex_state))))\<rparr>"

text \<open>The shell \<open>sh_ok\<close>, except that the mail command exits with 1.\<close>

definition sh_mail_fails :: shell where
  "sh_mail_fails cmd w =
     (if prefix ''echo '' cmd then ((1, [], ''mail: cannot send message'' @ [NL]), w)
      else sh_ok cmd w)"

text \<open>Every command exits with 2 and changes nothing.\<close>

definition sh_fail :: shell where
  "sh_fail cmd w = ((2, ''no such file'' @ [NL, NL], []), w)"




section \<open>Basic facts\<close>

lemmas ex_defs = ex_args_def FORKS_def SYSTEMS_def chosen_def DEFAULT_EMAIL_RECIPIENT_def

lemmas step_defs = get_workdir_def tempfile_mkdtemp_def checkout_code_def run_tests_def
  then_do_def os_chdir_def execute_def os_path_join_def replace_slash_def
  ex_state_def ex_now_def ex_tmpdir_def ex_rtlog_def FORKS_def CHECKOUT_DIR_def TEST_DIR_def
  RT_LOG_def Let_def

lemma ex_parse:
  "parse_arguments ex_args
     = Inr (''emc'', ''develop'', ''hera'', ''intel'', ''gmtb'', ''rt.conf'', False,
            ''heinzell@ucar.edu'')"
  by (simp add: parse_arguments_def ex_defs)

lemma ex_get_workdir:
  "get_workdir ''/tmp'' ''a1b2c3d4'' ex_now ''emc'' ''develop'' ''intel'' ex_state
     = (Inr ex_tmpdir, ex_state\<lparr>os := (os ex_state)\<lparr>dirs := insert ex_tmpdir (dirs (os ex_state))\<rparr>\<rparr>)"
  by (simp add: step_defs)


lemma execute_eq:
  "sh cmd (os st) = ((rc, out, err), w') \<Longrightarrow>
   execute sh cmd st =
     (case decode_utf8 out of
        None \<Rightarrow> Inl (UnicodeDecodeError out)
      | Some so \<Rightarrow>
          (case decode_utf8 err of
             None \<Rightarrow> Inl (UnicodeDecodeError err)
           | Some se \<Rightarrow>
               if rc = 0 then Inr (rc, rstrip_nl so, rstrip_nl se)
               else Inl (Exception (exec_message cmd rc (rstrip_nl so) (rstrip_nl se)))),
      st\<lparr>os := w', trace := trace st @ [Exec cmd rc]\<rparr>)"
  by (simp add: execute_def Let_def split: option.splits)


lemma execute_state:
  "sh cmd (os st) = ((rc, out, err), w') \<Longrightarrow>
   snd (execute sh cmd st) = st\<lparr>os := w', trace := trace st @ [Exec cmd rc]\<rparr>"
  by (simp add: execute_eq)

lemma execute_Inr_status:
  "sh cmd (os st) = ((rc, out, err), w') \<Longrightarrow> fst (execute sh cmd st) = Inr x \<Longrightarrow> rc = 0"
  by (auto simp: execute_eq split: option.splits if_splits)







section \<open>The process executor\<close>




section \<open>The log evaluator and notifier\<close>







section \<open>Cleanup\<close>

text \<open>
  C3. For a work directory that exists, \<open>cleanup\<close> does not fail, and afterwards the
  directory is gone exactly when \<open>success\<close> is true and \<open>keep\<close> is false; in the other three
  combinations it still exists.
\<close>

theorem cleanup_deletes_iff:
  assumes "os_path_join (cwd (os st)) tmpdir \<in> dirs (os st)"
  shows "fst (cleanup success keep tmpdir st) = Inr ()
       \<and> (os_path_join (cwd (os st)) tmpdir \<notin> dirs (os (snd (cleanup success keep tmpdir st)))
            \<longleftrightarrow> success \<and> \<not> keep)"
  using assms by (simp add: cleanup_def shutil_rmtree_def under_def Let_def)

theorem cleanup_deletes_iff_witness:
  "os_path_join (cwd (os ex_checked)) (ex_tmpdir @ ''/ufs-weather-model'') \<in> dirs (os ex_checked)
   \<and> ex_tmpdir @ ''/ufs-weather-model''
       \<notin> dirs (os (snd (cleanup True False (ex_tmpdir @ ''/ufs-weather-model'') ex_checked)))
   \<and> ex_tmpdir @ ''/ufs-weather-model''
       \<in> dirs (os (snd (cleanup True True (ex_tmpdir @ ''/ufs-weather-model'') ex_checked)))
   \<and> ex_tmpdir @ ''/ufs-weather-model''
       \<in> dirs (os (snd (cleanup False False (ex_tmpdir @ ''/ufs-weather-model'') ex_checked)))
   \<and> ex_tmpdir @ ''/ufs-weather-model''
       \<in> dirs (os (snd (cleanup False True (ex_tmpdir @ ''/ufs-weather-model'') ex_checked)))"
proof -
  let ?d = "ex_tmpdir @ ''/ufs-weather-model''"
  have j: "os_path_join (cwd (os ex_checked)) ?d = ?d"
    by (simp add: os_path_join_def ex_tmpdir_def)
  have h: "os_path_join (cwd (os ex_checked)) ?d \<in> dirs (os ex_checked)"
    unfolding j by (simp add: ex_checked_def sh_ok_def)
  from cleanup_deletes_iff [OF h, of True False] cleanup_deletes_iff [OF h, of True True]
    cleanup_deletes_iff [OF h, of False False] cleanup_deletes_iff [OF h, of False True] h
  show ?thesis
    unfolding j by simp
qed

section \<open>The argument and configuration resolver\<close>

lemma parse_arguments_invalid:
  assumes "arg_fork a \<notin> dom FORKS
         \<or> (\<exists>f. FORKS (arg_fork a) = Some f \<and> arg_branch a \<notin> set (branches f))
         \<or> arg_system a \<notin> dom SYSTEMS
         \<or> (\<exists>s. SYSTEMS (arg_system a) = Some s
                \<and> chosen (arg_compiler a) (default_compiler s) \<notin> set (compilers s))"
  shows "\<exists>m. parse_arguments a = Inl (Exception m) \<and> prefix ''Invalid '' m"
proof (cases "FORKS (arg_fork a)")
  case None
  then show ?thesis by (simp add: parse_arguments_def)
next
  case (Some f)
  note f = this
  show ?thesis
  proof (cases "arg_branch a \<in> set (branches f)")
    case False
    with f show ?thesis by (simp add: parse_arguments_def)
  next
    case True
    note b = this
    show ?thesis
    proof (cases "SYSTEMS (arg_system a)")
      case None
      with f b show ?thesis by (simp add: parse_arguments_def)
    next
      case (Some s)
      with f b assms have "chosen (arg_compiler a) (default_compiler s) \<notin> set (compilers s)"
        by auto
      with f b Some show ?thesis by (simp add: parse_arguments_def)
    qed
  qed
qed

lemma main_parse_error:
  "parse_arguments a = Inl e \<Longrightarrow> main dec sh tmproot rnd now a st = (Inl e, st)"
  by (simp add: main_def)

lemma SYSTEMS_rtconfig:
  assumes "SYSTEMS n = Some s" and "c \<in> set (compilers s)"
  shows "\<exists>r. default_rtconfig s c = Some r"
  using assms by (auto simp: SYSTEMS_def split: if_splits)

lemma parse_arguments_valid:
  assumes "FORKS (arg_fork a) = Some f" and "arg_branch a \<in> set (branches f)"
    and "SYSTEMS (arg_system a) = Some s"
    and "chosen (arg_compiler a) (default_compiler s) \<in> set (compilers s)"
  shows "\<exists>rtconfig. parse_arguments a =
           Inr (arg_fork a, arg_branch a, arg_system a,
                chosen (arg_compiler a) (default_compiler s),
                chosen (arg_project a) (default_project s), rtconfig, arg_keep a,
                chosen (arg_email a) DEFAULT_EMAIL_RECIPIENT)
         \<and> (if truthy (arg_rtconfig a) then arg_rtconfig a
             else default_rtconfig s (chosen (arg_compiler a) (default_compiler s)))
           = Some rtconfig"
proof (cases "truthy (arg_rtconfig a)")
  case True
  then obtain r where "arg_rtconfig a = Some r"
    by (cases "arg_rtconfig a") auto
  with True assms show ?thesis
    by (simp add: parse_arguments_def)
next
  case False
  from SYSTEMS_rtconfig [OF assms(3) assms(4)] obtain r
    where "default_rtconfig s (chosen (arg_compiler a) (default_compiler s)) = Some r" ..
  with False assms show ?thesis
    by (simp add: parse_arguments_def)
qed

text \<open>
  C4. If the fork is not a key of \<open>FORKS\<close>, or the branch is not among the branches of
  the chosen fork, or the system is not a key of \<open>SYSTEMS\<close>, or the compiler (given, or
  the default of the system) is not among the compilers of the chosen system, then
  \<open>parse_arguments\<close> raises an exception whose message starts with \<open>Invalid\<close>, and
  \<open>main\<close> ends with that exception in the state it started in: no command has been
  handed to the shell and no directory has been created, whatever the shell is.
\<close>

theorem parse_arguments_rejects:
  assumes "arg_fork a \<notin> dom FORKS
         \<or> (\<exists>f. FORKS (arg_fork a) = Some f \<and> arg_branch a \<notin> set (branches f))
         \<or> arg_system a \<notin> dom SYSTEMS
         \<or> (\<exists>s. SYSTEMS (arg_system a) = Some s
                \<and> chosen (arg_compiler a) (default_compiler s) \<notin> set (compilers s))"
  shows "\<exists>m. parse_arguments a = Inl (Exception m) \<and> prefix ''Invalid '' m
            \<and> main dec sh tmproot rnd now a st = (Inl (Exception m), st)"
  using parse_arguments_invalid [OF assms] main_parse_error by blast

theorem parse_arguments_rejects_witness:
  "main text_utf8 sh_ok ''/tmp'' ''a1b2c3d4'' ex_now (ex_args\<lparr>arg_fork := ''ncar''\<rparr>) ex_state
     = (Inl (Exception ''Invalid fork ncar''), ex_state)
   \<and> main text_utf8 sh_ok ''/tmp'' ''a1b2c3d4'' ex_now (ex_args\<lparr>arg_compiler := Some ''gnu''\<rparr>) ex_state
     = (Inl (Exception ''Invalid compiler gnu for system hera''), ex_state)"
proof -
  let ?a = "ex_args\<lparr>arg_fork := ''ncar''\<rparr>"
  let ?b = "ex_args\<lparr>arg_compiler := Some ''gnu''\<rparr>"
  have ha: "arg_fork ?a \<notin> dom FORKS
         \<or> (\<exists>f. FORKS (arg_fork ?a) = Some f \<and> arg_branch ?a \<notin> set (branches f))
         \<or> arg_system ?a \<notin> dom SYSTEMS
         \<or> (\<exists>s. SYSTEMS (arg_system ?a) = Some s
                \<and> chosen (arg_compiler ?a) (default_compiler s) \<notin> set (compilers s))"
    by (simp add: ex_defs)
  have hb: "arg_fork ?b \<notin> dom FORKS
         \<or> (\<exists>f. FORKS (arg_fork ?b) = Some f \<and> arg_branch ?b \<notin> set (branches f))
         \<or> arg_system ?b \<notin> dom SYSTEMS
         \<or> (\<exists>s. SYSTEMS (arg_system ?b) = Some s
                \<and> chosen (arg_compiler ?b) (default_compiler s) \<notin> set (compilers s))"
    by (simp add: ex_defs)
  have pa: "parse_arguments ?a = Inl (Exception ''Invalid fork ncar'')"
    by (simp add: parse_arguments_def ex_defs)
  have pb: "parse_arguments ?b = Inl (Exception ''Invalid compiler gnu for system hera'')"
    by (simp add: parse_arguments_def ex_defs)
  from parse_arguments_rejects [OF ha, of text_utf8 sh_ok "''/tmp''" "''a1b2c3d4''" ex_now ex_state]
    parse_arguments_rejects [OF hb, of text_utf8 sh_ok "''/tmp''" "''a1b2c3d4''" ex_now ex_state]
  show ?thesis
    unfolding pa pb by auto
qed

text \<open>
  C10. For every selection of fork, branch, system and compiler that the tables allow,
  the resolver succeeds for every value of \<open>--project\<close> and \<open>--rtconfig\<close>, absent or
  given: no table is consulted for a given value, and a given non-empty string is the
  resolved one. With these tables the defaults are always there, so this step never
  fails.
\<close>

theorem parse_arguments_accepts_project_rtconfig:
  assumes "FORKS (arg_fork a) = Some f" and "arg_branch a \<in> set (branches f)"
    and "SYSTEMS (arg_system a) = Some s"
    and "chosen (arg_compiler a) (default_compiler s) \<in> set (compilers s)"
  shows "\<exists>project rtconfig.
           parse_arguments (a\<lparr>arg_project := p, arg_rtconfig := r\<rparr>) =
             Inr (arg_fork a, arg_branch a, arg_system a,
                  chosen (arg_compiler a) (default_compiler s),
                  project, rtconfig, arg_keep a,
                  chosen (arg_email a) DEFAULT_EMAIL_RECIPIENT)
         \<and> (truthy p \<longrightarrow> p = Some project)
         \<and> (truthy r \<longrightarrow> r = Some rtconfig)"
proof -
  let ?a = "a\<lparr>arg_project := p, arg_rtconfig := r\<rparr>"
  have "FORKS (arg_fork ?a) = Some f" "arg_branch ?a \<in> set (branches f)"
    "SYSTEMS (arg_system ?a) = Some s"
    "chosen (arg_compiler ?a) (default_compiler s) \<in> set (compilers s)"
    using assms by simp_all
  from parse_arguments_valid [OF this] obtain rtconfig where
    "parse_arguments ?a =
           Inr (arg_fork ?a, arg_branch ?a, arg_system ?a,
                chosen (arg_compiler ?a) (default_compiler s),
                chosen (arg_project ?a) (default_project s), rtconfig, arg_keep ?a,
                chosen (arg_email ?a) DEFAULT_EMAIL_RECIPIENT)"
    and "(if truthy (arg_rtconfig ?a) then arg_rtconfig ?a
             else default_rtconfig s (chosen (arg_compiler ?a) (default_compiler s)))
           = Some rtconfig"
    by blast
  moreover have "truthy p \<longrightarrow> p = Some (chosen p (default_project s))"
    by (cases p) (simp_all add: chosen_def)
  ultimately show ?thesis
    by auto
qed

theorem parse_arguments_accepts_project_rtconfig_witness:
  "parse_arguments (ex_args\<lparr>arg_project := Some ''no-such-account'',
                             arg_rtconfig := Some ''rt_mine.conf''\<rparr>)
     = Inr (''emc'', ''develop'', ''hera'', ''intel'', ''no-such-account'', ''rt_mine.conf'',
            False, ''heinzell@ucar.edu'')"
proof -
  let ?s = "\<lparr>compilers = [''intel''], default_compiler = ''intel'', default_project = ''gmtb'',
             default_rtconfig = [''intel'' \<mapsto> ''rt.conf'']\<rparr>"
  let ?f = "\<lparr>branches = [''develop''],
             url = ''https://github.com/ufs-community/ufs-weather-model''\<rparr>"
  have h1: "FORKS (arg_fork ex_args) = Some ?f"
    by (simp add: ex_defs)
  have h2: "arg_branch ex_args \<in> set (branches ?f)"
    by (simp add: ex_defs)
  have h3: "SYSTEMS (arg_system ex_args) = Some ?s"
    by (simp add: ex_defs)
  have h4: "chosen (arg_compiler ex_args) (default_compiler ?s) \<in> set (compilers ?s)"
    by (simp add: ex_defs)
  from parse_arguments_accepts_project_rtconfig [OF h1 h2 h3 h4,
         where p = "Some ''no-such-account''" and r = "Some ''rt_mine.conf''"]
  show ?thesis
    by (auto simp: ex_defs)
qed

text \<open>
  C9 as stated fails: the resolver tests \<open>if args.email:\<close>, so \<open>--email ''\<close> is given and
  yet the default recipient is resolved, not the given (empty) value.
\<close>

theorem email_given_empty_counterexample:
  "arg_email (ex_args\<lparr>arg_email := Some ''''\<rparr>) = Some ''''
   \<and> parse_arguments (ex_args\<lparr>arg_email := Some ''''\<rparr>)
     = Inr (''emc'', ''develop'', ''hera'', ''intel'', ''gmtb'', ''rt.conf'', False,
            ''heinzell@ucar.edu'')"
  by (simp add: parse_arguments_def ex_defs)

text \<open>
  C9 (as amended). Whenever the resolver succeeds, the recipient is the literal
  \<open>heinzell@ucar.edu\<close> if \<open>--email\<close> is absent or empty, whatever the system, and the
  given string if it is not empty.
\<close>

theorem resolved_email:
  assumes "parse_arguments a = Inr (fork, branch, system, compiler, project, rtconfig, keep, email)"
  shows "email = (case arg_email a of
                    None \<Rightarrow> ''heinzell@ucar.edu''
                  | Some x \<Rightarrow> if x = [] then ''heinzell@ucar.edu'' else x)"
  using assms
  by (auto simp: parse_arguments_def chosen_def DEFAULT_EMAIL_RECIPIENT_def Let_def
           split: option.splits if_splits)

theorem resolved_email_witness:
  "parse_arguments (ex_args\<lparr>arg_email := Some ''ops@example.org''\<rparr>)
     = Inr (''emc'', ''develop'', ''hera'', ''intel'', ''gmtb'', ''rt.conf'', False,
            ''ops@example.org'')
   \<and> ''ops@example.org'' = (case arg_email (ex_args\<lparr>arg_email := Some ''ops@example.org''\<rparr>) of
                    None \<Rightarrow> ''heinzell@ucar.edu''
                  | Some x \<Rightarrow> if x = [] then ''heinzell@ucar.edu'' else x)"
proof -
  have p: "parse_arguments (ex_args\<lparr>arg_email := Some ''ops@example.org''\<rparr>)
     = Inr (''emc'', ''develop'', ''hera'', ''intel'', ''gmtb'', ''rt.conf'', False,
            ''ops@example.org'')"
    by (simp add: parse_arguments_def ex_defs)
  from p resolved_email [OF p] show ?thesis
    by blast
qed

section \<open>Traces of the steps\<close>

lemma tripleI:
  assumes "\<And>st e st'. P st \<Longrightarrow> m st = (Inl e, st') \<Longrightarrow> E st'"
    and "\<And>st x st'. P st \<Longrightarrow> m st = (Inr x, st') \<Longrightarrow> Q st'"
  shows "triple P m Q E"
  unfolding triple_def
proof (intro allI impI)
  fix st assume p: "P st"
  obtain r st' where m: "m st = (r, st')" by (cases "m st")
  show "case m st of (Inl e, st') \<Rightarrow> E st' | (Inr x, st') \<Rightarrow> Q st'"
    using assms(1) [OF p] assms(2) [OF p] m by (cases r) auto
qed

lemma triple_Inl: "triple P m Q E \<Longrightarrow> P st \<Longrightarrow> m st = (Inl e, st') \<Longrightarrow> E st'"
  by (auto simp: triple_def)

lemma triple_Inr: "triple P m Q E \<Longrightarrow> P st \<Longrightarrow> m st = (Inr x, st') \<Longrightarrow> Q st'"
  by (auto simp: triple_def)

lemma triple_then_do:
  assumes "triple P m Q E" and "\<And>x. triple Q (f x) R E"
  shows "triple P (then_do m f) R E"
proof (rule tripleI)
  fix st e st' assume p: "P st" and r: "then_do m f st = (Inl e, st')"
  obtain r1 s1 where m: "m st = (r1, s1)" by (cases "m st")
  show "E st'"
  proof (cases r1)
    case (Inl e1)
    with m r have "st' = s1" by (simp add: then_do_def)
    with triple_Inl [OF assms(1) p] m Inl show ?thesis by simp
  next
    case (Inr x)
    with m r have "f x s1 = (Inl e, st')" by (simp add: then_do_def)
    moreover from triple_Inr [OF assms(1) p] m Inr have "Q s1" by simp
    ultimately show ?thesis using triple_Inl [OF assms(2)] by blast
  qed
next
  fix st y st' assume p: "P st" and r: "then_do m f st = (Inr y, st')"
  obtain r1 s1 where m: "m st = (r1, s1)" by (cases "m st")
  show "R st'"
  proof (cases r1)
    case (Inl e1)
    with m r show ?thesis by (simp add: then_do_def)
  next
    case (Inr x)
    with m r have "f x s1 = (Inr y, st')" by (simp add: then_do_def)
    moreover from triple_Inr [OF assms(1) p] m Inr have "Q s1" by simp
    ultimately show ?thesis using triple_Inr [OF assms(2)] by blast
  qed
qed

lemma triple_inv_then_do:
  assumes "triple I m I E" and "\<And>x. triple I (f x) I E"
  shows "triple I (then_do m f) I E"
  using assms by (rule triple_then_do)

lemma triple_return: "triple P (\<lambda>st. (Inr x, st)) P E"
  by (simp add: triple_def)

text \<open>Steps that leave the trace alone.\<close>

lemma all_ok_stopped:
  assumes "all_ok t0 st"
  shows "stopped t0 st"
proof -
  from assms obtain oks where "trace st = t0 @ oks" and "list_all is_ok oks"
    by (auto simp: all_ok_def)
  then have "trace st = t0 @ oks @ [] \<and> list_all is_ok oks"
    by simp
  then show ?thesis
    unfolding stopped_def by blast
qed

lemma os_chdir_trace: "trace (snd (os_chdir path st)) = trace st"
  by (simp add: os_chdir_def Let_def)

lemma open_read_state: "snd (open_read dec path st) = st"
  by (simp add: open_read_def split: option.splits)

lemma tempfile_mkdtemp_trace: "trace (snd (tempfile_mkdtemp tmproot rnd pre st)) = trace st"
  by (simp add: tempfile_mkdtemp_def Let_def)

lemma triple_os_chdir: "triple (all_ok t0) (os_chdir path) (all_ok t0) (stopped t0)"
proof (rule tripleI)
  fix st e st' assume "all_ok t0 st" and "os_chdir path st = (Inl e, st')"
  with os_chdir_trace [of path st] have "all_ok t0 st'"
    by (auto simp: all_ok_def)
  then show "stopped t0 st'"
    by (rule all_ok_stopped)
next
  fix st x st' assume "all_ok t0 st" and "os_chdir path st = (Inr x, st')"
  with os_chdir_trace [of path st] show "all_ok t0 st'"
    by (auto simp: all_ok_def)
qed

lemma triple_open_read: "triple (all_ok t0) (open_read dec path) (all_ok t0) (stopped t0)"
proof (rule tripleI)
  fix st e st' assume "all_ok t0 st" and "open_read dec path st = (Inl e, st')"
  with open_read_state [of dec path st] show "stopped t0 st'"
    by (auto intro: all_ok_stopped)
next
  fix st x st' assume "all_ok t0 st" and "open_read dec path st = (Inr x, st')"
  with open_read_state [of dec path st] show "all_ok t0 st'"
    by auto
qed

lemma triple_execute: "triple (all_ok t0) (execute sh cmd) (all_ok t0) (stopped t0)"
proof (rule tripleI)
  fix st e st' assume a: "all_ok t0 st" and r: "execute sh cmd st = (Inl e, st')"
  obtain rc out err w' where s: "sh cmd (os st) = ((rc, out, err), w')"
    by (metis prod.exhaust)
  from execute_state [where sh = sh, OF s] r
  have t: "trace st' = trace st @ [Exec cmd rc]"
    by simp
  from a obtain oks where o: "trace st = t0 @ oks" "list_all is_ok oks"
    by (auto simp: all_ok_def)
  show "stopped t0 st'"
  proof (cases "rc = 0")
    case True
    with t o have "trace st' = t0 @ (oks @ [Exec cmd rc]) @ []
                     \<and> list_all is_ok (oks @ [Exec cmd rc])"
      by simp
    then show ?thesis
      unfolding stopped_def by blast
  next
    case False
    with t o have "trace st' = t0 @ oks @ [Exec cmd rc] \<and> list_all is_ok oks
                     \<and> rc \<noteq> 0 \<and> [Exec cmd rc] = [Exec cmd rc]"
      by simp
    then show ?thesis
      unfolding stopped_def by blast
  qed
next
  fix st x st' assume a: "all_ok t0 st" and r: "execute sh cmd st = (Inr x, st')"
  obtain rc out err w' where s: "sh cmd (os st) = ((rc, out, err), w')"
    by (metis prod.exhaust)
  from execute_Inr_status [where sh = sh, OF s] r have "rc = 0"
    by simp
  moreover from execute_state [where sh = sh, OF s] r
  have "trace st' = trace st @ [Exec cmd rc]"
    by simp
  ultimately show "all_ok t0 st'"
    using a by (auto simp: all_ok_def)
qed

lemma triple_checkout_code:
  "triple (all_ok t0) (checkout_code sh BASEDIR fork branch tmpdir) (all_ok t0) (stopped t0)"
proof (cases "FORKS fork")
  case None
  then show ?thesis
    by (auto simp: checkout_code_def triple_def intro: all_ok_stopped)
next
  case (Some f)
  then show ?thesis
    by (simp add: checkout_code_def)
       (intro triple_inv_then_do triple_os_chdir triple_execute)
qed

lemma triple_run_tests:
  "triple (all_ok t0) (run_tests sh BASEDIR now system compiler project rtconfig keep tmpdir)
     (all_ok t0) (stopped t0)"
  unfolding run_tests_def Let_def
  by (intro triple_inv_then_do triple_os_chdir triple_execute triple_return)

lemma triple_check_logs:
  "triple (all_ok t0) (check_logs dec sh system compiler tmpdir rtlog keep email)
     (all_ok t0) (stopped t0)"
  unfolding check_logs_def Let_def
  by (intro triple_inv_then_do triple_open_read triple_execute triple_return)

lemma get_workdir_trace:
  "trace (snd (get_workdir tmproot rnd now fork branch compiler st)) = trace st"
  by (simp add: get_workdir_def tempfile_mkdtemp_trace)

lemma get_workdir_exists:
  "get_workdir tmproot rnd now fork branch compiler st = (Inr tmpdir, s1) \<Longrightarrow> tmpdir \<in> dirs (os s1)"
  by (auto simp: get_workdir_def tempfile_mkdtemp_def Let_def split: if_splits)

lemma main_steps:
  assumes "parse_arguments a = Inr (fork, branch, system, compiler, project, rtconfig, keep, email)"
  shows "main dec sh tmproot rnd now a st =
    then_do (get_workdir tmproot rnd now fork branch compiler) (\<lambda>tmpdir.
    then_do (checkout_code sh (cwd (os st)) fork branch tmpdir) (\<lambda>_.
    then_do (run_tests sh (cwd (os st)) now system compiler project rtconfig keep tmpdir) (\<lambda>rtlog.
    then_do (check_logs dec sh system compiler tmpdir rtlog keep email) (\<lambda>success.
    cleanup success keep tmpdir)))) st"
  using assms by (simp add: main_def Let_def)

lemma cleanup_trace:
  "trace (snd (cleanup success keep tmpdir st))
     = trace st @ (if success \<and> \<not> keep then [Rmtree tmpdir] else [])"
  by (simp add: cleanup_def shutil_rmtree_def Let_def)

lemma check_logs_Inr_trace:
  assumes "check_logs dec sh system compiler tmpdir rtlog keep email st = (Inr v, st')"
  shows "\<exists>message subject. trace st' = trace st @ [Exec (mail_cmd message rtlog subject email) 0]"
proof -
  obtain r s1 where o: "open_read dec rtlog st = (r, s1)" by (cases "open_read dec rtlog st")
  from open_read_state [of dec rtlog st] o have s1: "s1 = st" by simp
  show ?thesis
  proof (cases r)
    case (Inl e)
    with o assms show ?thesis by (simp add: check_logs_def then_do_def)
  next
    case (Inr content)
    let ?v = "if str_in RT_SUCCESSFUL content then True else False"
    let ?cmd = "mail_cmd (mail_message tmpdir rtlog ?v keep) rtlog
                  (mail_subject system compiler ?v keep) email"
    obtain rc out err w' where s: "sh ?cmd (os st) = ((rc, out, err), w')"
      by (metis prod.exhaust)
    from assms o Inr s1 have "then_do (execute sh ?cmd) (\<lambda>_ st. (Inr ?v, st)) st = (Inr v, st')"
      by (simp add: check_logs_def then_do_def Let_def)
    then obtain x where x: "execute sh ?cmd st = (Inr x, st')"
      by (auto simp: then_do_def split: prod.splits sum.splits)
    from execute_Inr_status [where sh = sh, OF s] x have "rc = 0"
      by simp
    moreover from execute_state [where sh = sh, OF s] x
    have "st' = st\<lparr>os := w', trace := trace st @ [Exec ?cmd rc]\<rparr>"
      by simp
    ultimately have "trace st' = trace st @ [Exec ?cmd 0]" by simp
    then show ?thesis by blast
  qed
qed

lemma stopped_no_rmtree:
  assumes "stopped t0 st"
  shows "\<exists>evs. trace st = t0 @ evs \<and> (\<forall>d. Rmtree d \<notin> set evs)"
proof -
  from assms obtain oks tl where t: "trace st = t0 @ oks @ tl" and o: "list_all is_ok oks"
    and l: "tl = [] \<or> (\<exists>c rc. rc \<noteq> 0 \<and> tl = [Exec c rc])"
    unfolding stopped_def by blast
  have "\<forall>d. Rmtree d \<notin> set oks"
    using o by (auto simp: list_all_iff)
  with l have "\<forall>d. Rmtree d \<notin> set (oks @ tl)" by auto
  with t show ?thesis by blast
qed

text \<open>The three steps between the creation of the work directory and cleanup.\<close>

lemma steps_cases:
  assumes a: "all_ok t0 s1"
  obtains
    (failed) e s' where
      "then_do (checkout_code sh BASEDIR fork branch tmpdir) (\<lambda>_.
       then_do (run_tests sh BASEDIR now system compiler project rtconfig keep tmpdir) (\<lambda>rtlog.
       then_do (check_logs dec sh system compiler tmpdir rtlog keep email) (\<lambda>success.
       cleanup success keep tmpdir))) s1 = (Inl e, s')"
      and "stopped t0 s'"
  | (checked) s3 s4 rtlog success message subject where
      "then_do (checkout_code sh BASEDIR fork branch tmpdir) (\<lambda>_.
       then_do (run_tests sh BASEDIR now system compiler project rtconfig keep tmpdir) (\<lambda>rtlog.
       then_do (check_logs dec sh system compiler tmpdir rtlog keep email) (\<lambda>success.
       cleanup success keep tmpdir))) s1 = cleanup success keep tmpdir s4"
      and "all_ok t0 s3"
      and "trace s4 = trace s3 @ [Exec (mail_cmd message rtlog subject email) 0]"
proof -
  let ?co = "checkout_code sh BASEDIR fork branch tmpdir"
  let ?rt = "run_tests sh BASEDIR now system compiler project rtconfig keep tmpdir"
  let ?cl = "\<lambda>rtlog. check_logs dec sh system compiler tmpdir rtlog keep email"
  obtain r2 s2 where c: "?co s1 = (r2, s2)" by (cases "?co s1")
  show thesis
  proof (cases r2)
    case (Inl e)
    with c triple_Inl [OF triple_checkout_code a] have "stopped t0 s2" by blast
    with c Inl show thesis by (intro failed [of e s2]) (simp_all add: then_do_def)
  next
    case (Inr u)
    with c triple_Inr [OF triple_checkout_code a] have a2: "all_ok t0 s2" by blast
    obtain r3 s3 where r: "?rt s2 = (r3, s3)" by (cases "?rt s2")
    show thesis
    proof (cases r3)
      case (Inl e)
      with r triple_Inl [OF triple_run_tests a2] have "stopped t0 s3" by blast
      with c \<open>r2 = Inr u\<close> r Inl show thesis
        by (intro failed [of e s3]) (simp_all add: then_do_def)
    next
      case (Inr rtlog)
      with r triple_Inr [OF triple_run_tests a2] have a3: "all_ok t0 s3" by blast
      obtain r4 s4 where l: "?cl rtlog s3 = (r4, s4)" by (cases "?cl rtlog s3")
      show thesis
      proof (cases r4)
        case (Inl e)
        with l triple_Inl [OF triple_check_logs a3] have "stopped t0 s4" by blast
        with c \<open>r2 = Inr u\<close> r \<open>r3 = Inr rtlog\<close> l Inl show thesis
          by (intro failed [of e s4]) (simp_all add: then_do_def)
      next
        case (Inr success)
        with l check_logs_Inr_trace obtain message subject where
          "trace s4 = trace s3 @ [Exec (mail_cmd message rtlog subject email) 0]"
          by blast
        with c \<open>r2 = Inr u\<close> r \<open>r3 = Inr rtlog\<close> l Inr a3 show thesis
          by (intro checked [of success s4 s3 message rtlog subject]) (simp_all add: then_do_def)
      qed
    qed
  qed
qed

text \<open>A directory that no command removes is there after every step before cleanup.\<close>

lemma triple_dir_os_chdir:
  "triple (\<lambda>st. d \<in> dirs (os st)) (os_chdir path) (\<lambda>st. d \<in> dirs (os st)) (\<lambda>st. d \<in> dirs (os st))"
  by (simp add: triple_def os_chdir_def Let_def)

lemma triple_dir_open_read:
  "triple (\<lambda>st. d \<in> dirs (os st)) (open_read dec path) (\<lambda>st. d \<in> dirs (os st)) (\<lambda>st. d \<in> dirs (os st))"
  by (simp add: triple_def open_read_def split: option.splits)

lemma triple_dir_execute:
  assumes "\<forall>cmd w. d \<in> dirs w \<longrightarrow> d \<in> dirs (snd (sh cmd w))"
  shows "triple (\<lambda>st. d \<in> dirs (os st)) (execute sh cmd) (\<lambda>st. d \<in> dirs (os st)) (\<lambda>st. d \<in> dirs (os st))"
proof -
  have "d \<in> dirs (os (snd (execute sh cmd st)))" if "d \<in> dirs (os st)" for st
  proof -
    obtain rc out err w' where s: "sh cmd (os st) = ((rc, out, err), w')"
      by (metis prod.exhaust)
    from assms that have "d \<in> dirs (snd (sh cmd (os st)))" by blast
    with s show ?thesis by (simp add: execute_state [where sh = sh, OF s])
  qed
  then show ?thesis
    by (auto simp: triple_def split: prod.splits sum.splits) (metis snd_conv)+
qed

lemma triple_dir_checkout_code:
  assumes "\<forall>cmd w. d \<in> dirs w \<longrightarrow> d \<in> dirs (snd (sh cmd w))"
  shows "triple (\<lambda>st. d \<in> dirs (os st)) (checkout_code sh BASEDIR fork branch tmpdir)
           (\<lambda>st. d \<in> dirs (os st)) (\<lambda>st. d \<in> dirs (os st))"
proof (cases "FORKS fork")
  case None
  then show ?thesis
    by (simp add: checkout_code_def triple_def)
next
  case (Some f)
  then show ?thesis
    by (simp add: checkout_code_def)
       (intro triple_inv_then_do triple_dir_os_chdir triple_dir_execute [OF assms])
qed

lemma triple_dir_run_tests:
  assumes "\<forall>cmd w. d \<in> dirs w \<longrightarrow> d \<in> dirs (snd (sh cmd w))"
  shows "triple (\<lambda>st. d \<in> dirs (os st))
           (run_tests sh BASEDIR now system compiler project rtconfig keep tmpdir)
           (\<lambda>st. d \<in> dirs (os st)) (\<lambda>st. d \<in> dirs (os st))"
  unfolding run_tests_def Let_def
  by (intro triple_inv_then_do triple_dir_os_chdir triple_dir_execute [OF assms] triple_return)

lemma triple_dir_check_logs:
  assumes "\<forall>cmd w. d \<in> dirs w \<longrightarrow> d \<in> dirs (snd (sh cmd w))"
  shows "triple (\<lambda>st. d \<in> dirs (os st)) (check_logs dec sh system compiler tmpdir rtlog keep email)
           (\<lambda>st. d \<in> dirs (os st)) (\<lambda>st. d \<in> dirs (os st))"
  unfolding check_logs_def Let_def
  by (intro triple_inv_then_do triple_dir_open_read triple_dir_execute [OF assms] triple_return)

section \<open>Failing runs\<close>

text \<open>
  C6. Take a run whose arguments were resolved and whose work directory was created, and
  in which checkout, test execution or the log evaluation and notification raises. Then
  \<open>main\<close> ends at once with that exception, in the state the failing step left: the
  commands of the run all exited with 0 except possibly the last one, so nothing was
  executed after a failing command and nothing was tried again; no directory tree was
  removed; and the work directory, which existed after its creation, still exists at the
  end provided that no external command removes it.
\<close>

theorem failure_keeps_workdir:
  assumes p: "parse_arguments a = Inr (fork, branch, system, compiler, project, rtconfig, keep, email)"
    and w: "get_workdir tmproot rnd now fork branch compiler st = (Inr tmpdir, s1)"
    and f: "checkout_code sh (cwd (os st)) fork branch tmpdir s1 = (Inl e, s')
          \<or> (\<exists>s2. checkout_code sh (cwd (os st)) fork branch tmpdir s1 = (Inr (), s2)
               \<and> (run_tests sh (cwd (os st)) now system compiler project rtconfig keep tmpdir s2
                     = (Inl e, s')
                  \<or> (\<exists>rtlog s3.
                        run_tests sh (cwd (os st)) now system compiler project rtconfig keep tmpdir s2
                          = (Inr rtlog, s3)
                        \<and> check_logs dec sh system compiler tmpdir rtlog keep email s3 = (Inl e, s'))))"
  shows "main dec sh tmproot rnd now a st = (Inl e, s')
       \<and> (\<exists>oks tl. trace s' = trace st @ oks @ tl \<and> list_all is_ok oks
              \<and> (tl = [] \<or> (\<exists>c rc. rc \<noteq> 0 \<and> tl = [Exec c rc])))
       \<and> (\<exists>evs. trace s' = trace st @ evs \<and> (\<forall>d. Rmtree d \<notin> set evs))
       \<and> tmpdir \<in> dirs (os s1)
       \<and> ((\<forall>cmd w. tmpdir \<in> dirs w \<longrightarrow> tmpdir \<in> dirs (snd (sh cmd w)))
            \<longrightarrow> tmpdir \<in> dirs (os s'))"
proof -
  let ?B = "cwd (os st)"
  let ?co = "checkout_code sh ?B fork branch tmpdir"
  let ?rt = "run_tests sh ?B now system compiler project rtconfig keep tmpdir"
  let ?cl = "\<lambda>rtlog. check_logs dec sh system compiler tmpdir rtlog keep email"
  let ?D = "\<lambda>st. tmpdir \<in> dirs (os st)"
  from get_workdir_trace [of tmproot rnd now fork branch compiler st] w
  have t1: "trace s1 = trace st" by simp
  then have a1: "all_ok (trace st) s1" by (simp add: all_ok_def)
  have d1: "?D s1" using w by (rule get_workdir_exists)
  have m: "main dec sh tmproot rnd now a st =
             then_do ?co (\<lambda>_. then_do ?rt (\<lambda>rtlog. then_do (?cl rtlog) (\<lambda>success.
               cleanup success keep tmpdir))) s1"
    using w by (simp add: main_steps [OF p] then_do_def)
  have "main dec sh tmproot rnd now a st = (Inl e, s') \<and> stopped (trace st) s'
          \<and> ((\<forall>cmd w. tmpdir \<in> dirs w \<longrightarrow> tmpdir \<in> dirs (snd (sh cmd w))) \<longrightarrow> ?D s')"
    using f
  proof (elim disjE exE conjE)
    assume c: "?co s1 = (Inl e, s')"
    then have "main dec sh tmproot rnd now a st = (Inl e, s')"
      by (simp add: m then_do_def)
    moreover have "stopped (trace st) s'"
      using triple_checkout_code a1 c by (rule triple_Inl)
    moreover have "?D s'" if "\<forall>cmd w. tmpdir \<in> dirs w \<longrightarrow> tmpdir \<in> dirs (snd (sh cmd w))"
      using triple_dir_checkout_code [OF that] d1 c by (rule triple_Inl)
    ultimately show ?thesis by blast
  next
    fix s2
    assume c: "?co s1 = (Inr (), s2)" and r: "?rt s2 = (Inl e, s')"
    then have "main dec sh tmproot rnd now a st = (Inl e, s')"
      by (simp add: m then_do_def)
    moreover have a2: "all_ok (trace st) s2"
      using triple_checkout_code a1 c by (rule triple_Inr)
    have "stopped (trace st) s'"
      using triple_run_tests a2 r by (rule triple_Inl)
    moreover have "?D s'" if k: "\<forall>cmd w. tmpdir \<in> dirs w \<longrightarrow> tmpdir \<in> dirs (snd (sh cmd w))"
    proof -
      have "?D s2" using triple_dir_checkout_code [OF k] d1 c by (rule triple_Inr)
      with triple_dir_run_tests [OF k] show ?thesis using r by (rule triple_Inl)
    qed
    ultimately show ?thesis by blast
  next
    fix s2 rtlog s3
    assume c: "?co s1 = (Inr (), s2)" and r: "?rt s2 = (Inr rtlog, s3)"
      and l: "?cl rtlog s3 = (Inl e, s')"
    then have "main dec sh tmproot rnd now a st = (Inl e, s')"
      by (simp add: m then_do_def)
    moreover have a2: "all_ok (trace st) s2"
      using triple_checkout_code a1 c by (rule triple_Inr)
    have a3: "all_ok (trace st) s3"
      using triple_run_tests a2 r by (rule triple_Inr)
    have "stopped (trace st) s'"
      using triple_check_logs a3 l by (rule triple_Inl)
    moreover have "?D s'" if k: "\<forall>cmd w. tmpdir \<in> dirs w \<longrightarrow> tmpdir \<in> dirs (snd (sh cmd w))"
    proof -
      have "?D s2" using triple_dir_checkout_code [OF k] d1 c by (rule triple_Inr)
      with triple_dir_run_tests [OF k] have "?D s3" using r by (rule triple_Inr)
      with triple_dir_check_logs [OF k] show ?thesis using l by (rule triple_Inl)
    qed
    ultimately show ?thesis by blast
  qed
  moreover from this have "\<exists>evs. trace s' = trace st @ evs \<and> (\<forall>d. Rmtree d \<notin> set evs)"
    using stopped_no_rmtree by blast
  ultimately show ?thesis
    using d1 unfolding stopped_def by blast
qed

theorem failure_keeps_workdir_witness:
  "fst (main text_utf8 sh_fail ''/tmp'' ''a1b2c3d4'' ex_now ex_args ex_state)
     = Inl (Exception (exec_message
              (clone_cmd ''develop'' ''https://github.com/ufs-community/ufs-weather-model'')
              2 ''no such file'' []))
   \<and> ex_tmpdir \<in> dirs (os (snd (main text_utf8 sh_fail ''/tmp'' ''a1b2c3d4'' ex_now ex_args ex_state)))"
proof -
  let ?s1 = "ex_state\<lparr>os := (os ex_state)\<lparr>dirs := insert ex_tmpdir (dirs (os ex_state))\<rparr>\<rparr>"
  let ?e = "Exception (exec_message
              (clone_cmd ''develop'' ''https://github.com/ufs-community/ufs-weather-model'')
              2 ''no such file'' [])"
  let ?co = "checkout_code sh_fail (cwd (os ex_state)) ''emc'' ''develop'' ex_tmpdir ?s1"
  have "fst ?co = Inl ?e"
    by (simp add: step_defs sh_fail_def rstrip_nl_def NL_def decode_utf8_def)
  then have c: "?co = (Inl ?e, snd ?co)"
    by (simp add: prod_eq_iff)
  have k: "\<forall>cmd w. ex_tmpdir \<in> dirs w \<longrightarrow> ex_tmpdir \<in> dirs (snd (sh_fail cmd w))"
    by (simp add: sh_fail_def)
  from failure_keeps_workdir [where sh = sh_fail and s' = "snd ?co", OF ex_parse ex_get_workdir disjI1, OF c] k
  show ?thesis
    by simp
qed

section \<open>Order of notification and cleanup\<close>

lemma is_ok_no_failure: "list_all is_ok oks \<Longrightarrow> Exec c rc \<in> set oks \<Longrightarrow> rc = 0"
  by (auto simp: list_all_iff)

lemma is_ok_no_rmtree: "list_all is_ok oks \<Longrightarrow> Rmtree d \<notin> set oks"
  by (auto simp: list_all_iff)

text \<open>
  C8. In every run of \<open>main\<close>, whatever the arguments, the shell and the start state: if
  a directory tree is removed, the removal is the last event of the run and comes directly
  after the mail command, which exited with 0, and every command before exited with 0; and
  if any command of the run, the mail command included, exits with another status, then
  \<open>main\<close> raises and no directory tree is removed, whatever the log contained and
  whatever \<open>keep\<close> is.
\<close>

theorem removal_only_after_mail:
  "\<exists>evs. trace (snd (main dec sh tmproot rnd now a st)) = trace st @ evs
     \<and> (\<forall>d. Rmtree d \<in> set evs \<longrightarrow>
           (\<exists>pre message rtlog subject email.
              evs = pre @ [Exec (mail_cmd message rtlog subject email) 0, Rmtree d]
              \<and> list_all is_ok pre))
     \<and> (\<forall>c rc. Exec c rc \<in> set evs \<and> rc \<noteq> 0 \<longrightarrow>
           (\<exists>e. fst (main dec sh tmproot rnd now a st) = Inl e) \<and> (\<forall>d. Rmtree d \<notin> set evs))"
proof (cases "parse_arguments a")
  case (Inl e)
  then have "trace (snd (main dec sh tmproot rnd now a st)) = trace st @ []"
    by (simp add: main_parse_error)
  then show ?thesis
    by (intro exI [of _ "[]"]) simp
next
  case (Inr t)
  then obtain fork branch system compiler project rtconfig keep email where
    p: "parse_arguments a = Inr (fork, branch, system, compiler, project, rtconfig, keep, email)"
    by (metis prod.exhaust)
  let ?gw = "get_workdir tmproot rnd now fork branch compiler"
  obtain r1 s1 where w: "?gw st = (r1, s1)" by (cases "?gw st")
  from get_workdir_trace [of tmproot rnd now fork branch compiler st] w
  have t1: "trace s1 = trace st" by simp
  show ?thesis
  proof (cases r1)
    case (Inl e)
    with w have "main dec sh tmproot rnd now a st = (Inl e, s1)"
      by (simp add: main_steps [OF p] then_do_def)
    with t1 have "trace (snd (main dec sh tmproot rnd now a st)) = trace st @ []"
      by simp
    then show ?thesis
      by (intro exI [of _ "[]"]) simp
  next
    case (Inr tmpdir)
    let ?rest = "then_do (checkout_code sh (cwd (os st)) fork branch tmpdir) (\<lambda>_.
       then_do (run_tests sh (cwd (os st)) now system compiler project rtconfig keep tmpdir) (\<lambda>rtlog.
       then_do (check_logs dec sh system compiler tmpdir rtlog keep email) (\<lambda>success.
       cleanup success keep tmpdir)))"
    from w Inr have m: "main dec sh tmproot rnd now a st = ?rest s1"
      by (simp add: main_steps [OF p] then_do_def)
    from t1 have a1: "all_ok (trace st) s1" by (simp add: all_ok_def)
    from a1 show ?thesis
    proof (cases rule: steps_cases [where sh = sh and BASEDIR = "cwd (os st)" and fork = fork
          and branch = branch and tmpdir = tmpdir and now = now and system = system
          and compiler = compiler and project = project and rtconfig = rtconfig
          and keep = keep and email = email and dec = dec])
      case (failed e s')
      from failed(2) obtain oks tl where t: "trace s' = trace st @ oks @ tl"
        and o: "list_all is_ok oks"
        and l: "tl = [] \<or> (\<exists>c rc. rc \<noteq> 0 \<and> tl = [Exec c rc])"
        unfolding stopped_def by blast
      from o l have n: "\<forall>d. Rmtree d \<notin> set (oks @ tl)"
        using is_ok_no_rmtree by auto
      from m failed(1) have r: "main dec sh tmproot rnd now a st = (Inl e, s')" by simp
      with t n show ?thesis
        by (intro exI [of _ "oks @ tl"]) simp
    next
      case (checked s3 s4 rtlog success message subject)
      from checked(2) obtain oks where t3: "trace s3 = trace st @ oks" and o: "list_all is_ok oks"
        unfolding all_ok_def by blast
      let ?mail = "Exec (mail_cmd message rtlog subject email) 0"
      let ?rm = "if success \<and> \<not> keep then [Rmtree tmpdir] else []"
      let ?evs = "oks @ [?mail] @ ?rm"
      from m checked(1) have "trace (snd (main dec sh tmproot rnd now a st)) = trace s4 @ ?rm"
        by (simp only: cleanup_trace)
      with checked(3) t3 have t: "trace (snd (main dec sh tmproot rnd now a st)) = trace st @ ?evs"
        by simp
      have nr: "\<forall>d. Rmtree d \<notin> set oks"
        using o is_ok_no_rmtree by blast
      have c1: "\<exists>pre message rtlog subject email.
              ?evs = pre @ [Exec (mail_cmd message rtlog subject email) 0, Rmtree d]
              \<and> list_all is_ok pre" if "Rmtree d \<in> set ?evs" for d
      proof -
        from that nr have "success \<and> \<not> keep" and "d = tmpdir"
          by (auto split: if_splits)
        then have "?evs = oks @ [?mail, Rmtree d]" by simp
        with o show ?thesis by blast
      qed
      have c2: "False" if "Exec c rc \<in> set ?evs" and "rc \<noteq> 0" for c rc
      proof -
        from that have "Exec c rc \<in> set oks"
          by (auto split: if_splits)
        with o that(2) show False
          using is_ok_no_failure by blast
      qed
      from t c1 c2 show ?thesis
        by (intro exI [of _ ?evs]) blast
    qed
  qed
qed

theorem removal_only_after_mail_witness:
  "(\<exists>e. fst (main text_utf8 sh_mail_fails ''/tmp'' ''a1b2c3d4'' ex_now ex_args ex_state) = Inl e)
   \<and> (\<forall>d. Rmtree d \<notin> set (trace (snd (main text_utf8 sh_mail_fails ''/tmp'' ''a1b2c3d4'' ex_now ex_args
                                          ex_state))))
   \<and> ex_tmpdir \<in> dirs (os (snd (main text_utf8 sh_mail_fails ''/tmp'' ''a1b2c3d4'' ex_now ex_args ex_state)))"
proof -
  let ?m = "main text_utf8 sh_mail_fails ''/tmp'' ''a1b2c3d4'' ex_now ex_args ex_state"
  let ?mail = "Exec (mail_cmd (mail_message ex_tmpdir ex_rtlog True False) ex_rtlog
                       (mail_subject ''hera'' ''intel'' True False) ''heinzell@ucar.edu'') 1"
  have "case ?m of (r, s) \<Rightarrow> ?mail \<in> set (trace s) \<and> ex_tmpdir \<in> dirs (os s)"
    by code_simp
  then have "?mail \<in> set (trace (snd ?m)) \<and> ex_tmpdir \<in> dirs (os (snd ?m))"
    by (simp only: case_prod_beta)
  then have t: "?mail \<in> set (trace (snd ?m))" and d: "ex_tmpdir \<in> dirs (os (snd ?m))"
    by blast+
  from removal_only_after_mail [of text_utf8 sh_mail_fails "''/tmp''" "''a1b2c3d4''" ex_now ex_args ex_state]
  obtain evs where 1: "trace (snd ?m) = trace ex_state @ evs"
    and 2: "\<forall>c rc. Exec c rc \<in> set evs \<and> rc \<noteq> 0 \<longrightarrow>
              (\<exists>e. fst ?m = Inl e) \<and> (\<forall>d. Rmtree d \<notin> set evs)"
    by blast
  from 1 have "evs = trace (snd ?m)"
    by (simp add: ex_state_def)
  with t 2 have "(\<exists>e. fst ?m = Inl e) \<and> (\<forall>d. Rmtree d \<notin> set (trace (snd ?m)))"
    by (metis zero_neq_one)
  with d show ?thesis
    by blast
qed

section \<open>End to end\<close>








end
